theory Spec2Isabelle
  imports Complex_Main "HOL-Library.List_Lexorder"
begin

section \<open>Python strings and floats\<close>

text \<open>
  A Python \<open>str\<close> is a sequence of Unicode code points, and \<open>len\<close>, \<open>strip\<close>,
  \<open>startswith\<close> and \<open>in\<close> all work on code points. The source carries Cyrillic
  literals, so a string is modelled as the list of its code points. \<open>asc\<close> writes an
  ASCII literal.
\<close>

type_synonym ustr = "nat list"

abbreviation asc :: "string \<Rightarrow> ustr" where
  "asc s \<equiv> map of_char s"

text \<open>The code points for which \<open>str.isspace()\<close> holds (also the class \<open>\s\<close> of \<open>re\<close>).\<close>

definition isspace :: "nat \<Rightarrow> bool" where
  "isspace c \<longleftrightarrow>
     (9 \<le> c \<and> c \<le> 13) \<or> (28 \<le> c \<and> c \<le> 32) \<or> c = 133 \<or> c = 160 \<or> c = 5760 \<or>
     (8192 \<le> c \<and> c \<le> 8202) \<or> c = 8232 \<or> c = 8233 \<or> c = 8239 \<or> c = 8287 \<or> c = 12288"

text \<open>\<open>s.strip()\<close>\<close>

definition strip :: "ustr \<Rightarrow> ustr" where
  "strip s = rev (dropWhile isspace (rev (dropWhile isspace s)))"

text \<open>\<open>s.startswith(p)\<close>\<close>

definition startswith :: "ustr \<Rightarrow> ustr \<Rightarrow> bool" where
  "startswith s p \<longleftrightarrow> take (length p) s = p"

text \<open>\<open>s.endswith(p)\<close>\<close>

definition endswith :: "ustr \<Rightarrow> ustr \<Rightarrow> bool" where
  "endswith s p \<longleftrightarrow> length p \<le> length s \<and> drop (length s - length p) s = p"

text \<open>\<open>sub in s\<close> for two strings: \<open>sub\<close> occurs in \<open>s\<close> as a contiguous piece.\<close>

fun contains :: "ustr \<Rightarrow> ustr \<Rightarrow> bool" where
  "contains [] sub = (sub = [])"
| "contains (c # cs) sub = (startswith (c # cs) sub \<or> contains cs sub)"

text \<open>\<open>s.split(sep)\<close> for a one-character separator: empty pieces are kept.\<close>

fun split_on :: "nat \<Rightarrow> ustr \<Rightarrow> ustr list" where
  "split_on sep [] = [[]]"
| "split_on sep (c # cs) =
     (if c = sep then [] # split_on sep cs
      else (case split_on sep cs of [] \<Rightarrow> [[c]] | w # ws \<Rightarrow> (c # w) # ws))"

text \<open>\<open>s.split(sep, 1)\<close>: one piece when \<open>sep\<close> does not occur, two otherwise.\<close>

definition split_once :: "nat \<Rightarrow> ustr \<Rightarrow> ustr list" where
  "split_once sep s =
     (case dropWhile (\<lambda>c. c \<noteq> sep) s of
        [] \<Rightarrow> [s]
      | _ # rest \<Rightarrow> [takeWhile (\<lambda>c. c \<noteq> sep) s, rest])"

text \<open>
  A Python \<open>float\<close>: a finite value, an infinity or NaN. Rounding to a double is not
  modelled; the code only stores the value and compares it with \<open>0.5\<close>.
\<close>

datatype pyfloat = Finite real | PosInf | NegInf | NaN

text \<open>\<open>x < 0.5\<close> on floats; every comparison with NaN is false.\<close>

fun lt_half :: "pyfloat \<Rightarrow> bool" where
  "lt_half (Finite r) = (r < 1 / 2)"
| "lt_half NegInf = True"
| "lt_half PosInf = False"
| "lt_half NaN = False"

text \<open>
  Two builtins are parameters of the model, so that every theorem holds for whatever
  they compute: \<open>lower :: ustr \<Rightarrow> ustr\<close> is \<open>str.lower()\<close> (full Unicode lowercasing), and
  \<open>to_float :: ustr \<Rightarrow> pyfloat option\<close> is \<open>float(s)\<close>, with \<open>None\<close> for \<open>ValueError\<close>.
  The two functions below are instances used to run the model on concrete inputs; they
  agree with the builtins on ASCII and basic Cyrillic letters, and on plain decimal
  numerals \<open>digits[.digits]\<close>.
\<close>

definition lower_char :: "nat \<Rightarrow> nat" where
  "lower_char c =
     (if (65 \<le> c \<and> c \<le> 90) \<or> (1040 \<le> c \<and> c \<le> 1071) then c + 32
      else if 1024 \<le> c \<and> c \<le> 1039 then c + 80
      else c)"

definition simple_lower :: "ustr \<Rightarrow> ustr" where
  "simple_lower s = map lower_char s"


definition is_digit :: "nat \<Rightarrow> bool" where
  "is_digit c \<longleftrightarrow> 48 \<le> c \<and> c \<le> 57"

fun digits_value :: "ustr \<Rightarrow> nat \<Rightarrow> nat" where
  "digits_value [] acc = acc"
| "digits_value (c # cs) acc = digits_value cs (10 * acc + (c - 48))"

definition decimal_float :: "ustr \<Rightarrow> pyfloat option" where
  "decimal_float s =
     (let ip = takeWhile is_digit s; rest = dropWhile is_digit s in
      if ip = [] then None
      else if rest = [] then Some (Finite (real (digits_value ip 0)))
      else if hd rest = 46 \<and> tl rest \<noteq> [] \<and> list_all is_digit (tl rest)
        then Some (Finite (real (digits_value (ip @ tl rest) 0) / 10 ^ length (tl rest)))
      else None)"

section \<open>The LLM Gateway as seen by the program\<close>

text \<open>
  \<open>client.messages.create(...)\<close> followed by \<open>response.content[0].text\<close> either yields
  the response text or raises: \<open>anthropic.RateLimitError\<close>, another
  \<open>anthropic.APIError\<close>, or any other exception (a malformed response included).
  The service is a script \<open>api :: nat \<Rightarrow> outcome\<close>, the outcome of the k-th request made;
  the prompt text only travels to the service and is not part of the model.
  The program's effects on the outside are the requests made and the sleeps taken.
\<close>

datatype outcome = Reply ustr | RateLimitError | APIError | OtherError

record gateway =
  calls :: nat
  sleeps :: "nat list"

definition request :: "gateway \<Rightarrow> gateway" where
  "request g = g\<lparr>calls := calls g + 1\<rparr>"

definition sleep :: "nat \<Rightarrow> gateway \<Rightarrow> gateway" where
  "sleep n g = g\<lparr>sleeps := sleeps g @ [n]\<rparr>"

text \<open>An outcome that carries a response; the other three are failed attempts.\<close>

fun is_reply :: "outcome \<Rightarrow> bool" where
  "is_reply (Reply _) = True"
| "is_reply _ = False"

section \<open>classifier.py\<close>

text \<open>
  \<open>_call_claude_with_retry\<close> returns a pair for the operation \<open>"classification"\<close> and
  whatever the parser returns otherwise; a Python value of either shape is a \<open>pyval\<close>.
\<close>

datatype pyval = Pair ustr pyfloat | Single ustr

datatype failure = StorageUnavailable | TypeError

definition label_category :: ustr where
  "label_category = [1050, 1072, 1090, 1077, 1075, 1086, 1088, 1080, 1103, 58]"

definition label_confidence :: ustr where
  "label_confidence = [1059, 1074, 1077, 1088, 1077, 1085, 1085, 1086, 1089, 1090, 1100, 58]"

text \<open>
  The loop of \<open>_parse_claude_response\<close> over the lines; \<open>None\<close> is an exception raised
  inside the \<open>try\<close> (the index \<open>[1]\<close> out of range).
\<close>

fun parse_lines ::
  "(ustr \<Rightarrow> pyfloat option) \<Rightarrow> ustr list \<Rightarrow> ustr option \<Rightarrow> pyfloat \<Rightarrow> (ustr option \<times> pyfloat) option"
where
  "parse_lines to_float [] category confidence = Some (category, confidence)"
| "parse_lines to_float (l # ls) category confidence =
     (let line = strip l in
      if startswith line label_category then
        (case split_once 58 line of
           [_, v] \<Rightarrow> parse_lines to_float ls (Some (strip v)) confidence
         | _ \<Rightarrow> None)
      else if startswith line label_confidence then
        (case split_once 58 line of
           [_, v] \<Rightarrow>
             (case to_float (strip v) of
                Some f \<Rightarrow> parse_lines to_float ls category f
              | None \<Rightarrow> parse_lines to_float ls category (Finite (1 / 2)))
         | _ \<Rightarrow> None)
      else parse_lines to_float ls category confidence)"

definition parse_claude_response :: "(ustr \<Rightarrow> pyfloat option) \<Rightarrow> ustr \<Rightarrow> pyval" where
  "parse_claude_response to_float response_text =
     (case parse_lines to_float (split_on 10 (strip response_text)) None (Finite (1 / 2)) of
        Some (category, confidence) \<Rightarrow>
          (case category of
             None \<Rightarrow> Pair (asc ''general'') confidence
           | Some c \<Rightarrow> if c = [] then Pair (asc ''general'') confidence else Pair c confidence)
      | None \<Rightarrow> Pair (asc ''general'') (Finite (1 / 2)))"

text \<open>
  The \<open>for attempt in range(max_retries)\<close> loop of \<open>_call_claude_with_retry\<close>, over the
  list of attempt numbers still to run. \<open>Some v\<close> is a \<open>return v\<close> from inside the loop,
  \<open>None\<close> is leaving the loop (by \<open>break\<close> or by exhausting the range).
  Under \<open>"classification"\<close> the parser's result is unpacked into two names; a result that
  is not a pair raises there and is caught by \<open>except Exception\<close>.
  Inside the loop \<open>attempt < max_retries\<close>, so \<open>max_retries - 1\<close> on naturals is exact.
\<close>

fun retry_loop ::
  "(nat \<Rightarrow> outcome) \<Rightarrow> (ustr \<Rightarrow> pyval) \<Rightarrow> ustr \<Rightarrow> nat \<Rightarrow> nat list \<Rightarrow> gateway \<Rightarrow> pyval option \<times> gateway"
where
  "retry_loop api parser_func operation_name max_retries [] g = (None, g)"
| "retry_loop api parser_func operation_name max_retries (attempt # rest) g =
     (case api (calls g) of
        Reply response_text \<Rightarrow>
          (if operation_name = asc ''classification'' then
             (case parser_func response_text of
                Pair category confidence \<Rightarrow>
                  (if lt_half confidence then (Some (Pair (asc ''review'') confidence), request g)
                   else (Some (Pair category confidence), request g))
              | Single _ \<Rightarrow>
                  (if attempt < max_retries - 1
                   then retry_loop api parser_func operation_name max_retries rest
                          (sleep (2 ^ attempt) (request g))
                   else (None, request g)))
           else (Some (parser_func response_text), request g))
      | RateLimitError \<Rightarrow>
          retry_loop api parser_func operation_name max_retries rest
            (sleep (2 ^ attempt + 1) (request g))
      | APIError \<Rightarrow>
          (if attempt < max_retries - 1
           then retry_loop api parser_func operation_name max_retries rest
                  (sleep (2 ^ attempt) (request g))
           else (None, request g))
      | OtherError \<Rightarrow>
          (if attempt < max_retries - 1
           then retry_loop api parser_func operation_name max_retries rest
                  (sleep (2 ^ attempt) (request g))
           else (None, request g)))"

definition call_claude_with_retry ::
  "(nat \<Rightarrow> outcome) \<Rightarrow> (ustr \<Rightarrow> pyval) \<Rightarrow> ustr \<Rightarrow> nat \<Rightarrow> gateway \<Rightarrow> pyval \<times> gateway"
where
  "call_claude_with_retry api parser_func operation_name max_retries g =
     (case retry_loop api parser_func operation_name max_retries [0..<max_retries] g of
        (Some v, g') \<Rightarrow> (v, g')
      | (None, g') \<Rightarrow>
          (if operation_name = asc ''classification''
           then (Pair (asc ''general'') (Finite (1 / 2)), g')
           else (Single (asc ''general''), g')))"

definition classify_with_claude ::
  "(ustr \<Rightarrow> pyfloat option) \<Rightarrow> (nat \<Rightarrow> outcome) \<Rightarrow> ustr \<Rightarrow> ustr list \<Rightarrow> gateway \<Rightarrow> pyval \<times> gateway"
where
  "classify_with_claude to_float api text existing_categories g =
     call_claude_with_retry api (parse_claude_response to_float) (asc ''classification'') 3 g"

text \<open>The closure \<open>parse_duplicate_response\<close> of \<open>_check_duplicate_category\<close>.\<close>

definition parse_duplicate_response ::
  "(ustr \<Rightarrow> ustr) \<Rightarrow> ustr \<Rightarrow> ustr list \<Rightarrow> ustr \<Rightarrow> pyval"
where
  "parse_duplicate_response lower new_category existing_categories response_text =
     (let result_category = strip response_text in
      if lower result_category \<in> set (map lower existing_categories)
      then Single result_category
      else Single new_category)"

definition check_duplicate_category ::
  "(ustr \<Rightarrow> ustr) \<Rightarrow> (nat \<Rightarrow> outcome) \<Rightarrow> ustr \<Rightarrow> ustr list \<Rightarrow> gateway \<Rightarrow> pyval \<times> gateway"
where
  "check_duplicate_category lower api new_category existing_categories g =
     (if existing_categories = [] then (Single new_category, g)
      else call_claude_with_retry api
             (parse_duplicate_response lower new_category existing_categories)
             (asc ''duplicate_check'') 3 g)"

fun simple_category_match :: "(ustr \<Rightarrow> ustr) \<Rightarrow> ustr \<Rightarrow> ustr list \<Rightarrow> ustr option" where
  "simple_category_match lower text [] = None"
| "simple_category_match lower text (category # categories) =
     (if contains (lower text) (lower category) then Some category
      else simple_category_match lower text categories)"

text \<open>Python truth of the value returned by \<open>_simple_category_match\<close>.\<close>

fun truthy :: "ustr option \<Rightarrow> bool" where
  "truthy None = False"
| "truthy (Some s) = (s \<noteq> [])"

section \<open>database.py\<close>

text \<open>
  The store is the committed content of the two tables. Every statement the program
  sends (\<open>execute\<close> or \<open>commit\<close>) may raise; \<open>faults k\<close> says whether the k-th
  statement sent does, and \<open>ops\<close> counts the statements sent. A statement that raises
  leaves the committed content as it is: what the open transaction had written is not
  committed. Message identifiers come from a counter, as a serial column gives them.
\<close>

record message =
  msg_id :: nat
  m_source_url :: "ustr option"
  m_telegram_link :: ustr
  m_summary :: ustr
  m_category :: ustr

record database =
  categories :: "ustr list"
  messages :: "message list"
  next_id :: nat
  ops :: nat

definition tick :: "database \<Rightarrow> database" where
  "tick d = d\<lparr>ops := ops d + 1\<rparr>"

text \<open>
  \<open>SELECT name FROM categories ORDER BY name\<close>. The rows are ordered by code points
  here; the collation of the store decides the order only, never the rows returned.
\<close>

definition get_existing_categories :: "(nat \<Rightarrow> bool) \<Rightarrow> database \<Rightarrow> (failure + ustr list) \<times> database" where
  "get_existing_categories faults d =
     (if faults (ops d) then (Inl StorageUnavailable, tick d)
      else (Inr (sort (categories d)), tick d))"

text \<open>
  \<open>SELECT 1 FROM categories WHERE LOWER(name) = LOWER(%s)\<close>: \<open>sql_lower\<close> is the
  store's \<open>LOWER\<close>, a parameter of its own since it need not agree with \<open>str.lower()\<close>.
\<close>

definition category_exists ::
  "(ustr \<Rightarrow> ustr) \<Rightarrow> (nat \<Rightarrow> bool) \<Rightarrow> ustr \<Rightarrow> database \<Rightarrow> (failure + bool) \<times> database"
where
  "category_exists sql_lower faults category_name d =
     (if faults (ops d) then (Inl StorageUnavailable, tick d)
      else (Inr (list_ex (\<lambda>name. sql_lower name = sql_lower category_name) (categories d)), tick d))"


text \<open>
  The loop of \<open>add_category\<close> over the existing names: \<open>True\<close> is its \<open>return False\<close>.
  The warning it logs for similar names has no effect on the result.
\<close>

fun matches_existing :: "(ustr \<Rightarrow> ustr) \<Rightarrow> ustr \<Rightarrow> ustr list \<Rightarrow> bool" where
  "matches_existing lower category_lower [] = False"
| "matches_existing lower category_lower (existing # rest) =
     (if lower existing = category_lower then True
      else matches_existing lower category_lower rest)"

text \<open>\<open>INSERT INTO categories (name) VALUES (%s) ON CONFLICT (name) DO NOTHING\<close>\<close>

definition insert_category :: "ustr \<Rightarrow> database \<Rightarrow> database" where
  "insert_category category_name d =
     (if category_name \<in> set (categories d) then d
      else d\<lparr>categories := categories d @ [category_name]\<rparr>)"

definition add_category ::
  "(ustr \<Rightarrow> ustr) \<Rightarrow> (ustr \<Rightarrow> ustr) \<Rightarrow> (nat \<Rightarrow> bool) \<Rightarrow> ustr \<Rightarrow> database \<Rightarrow> (failure + bool) \<times> database"
where
  "add_category sql_lower lower faults category_name d =
     (case category_exists sql_lower faults category_name d of
        (Inl e, d1) \<Rightarrow> (Inl e, d1)
      | (Inr found, d1) \<Rightarrow>
          if found then (Inr False, d1)
          else
            (case get_existing_categories faults d1 of
               (Inl e, d2) \<Rightarrow> (Inl e, d2)
             | (Inr existing_categories, d2) \<Rightarrow>
                 if matches_existing lower (lower category_name) existing_categories
                 then (Inr False, d2)
                 else if faults (ops d2) then (Inl StorageUnavailable, tick d2)
                 else if faults (ops d2 + 1) then (Inl StorageUnavailable, tick (tick d2))
                 else (Inr True, insert_category category_name (tick (tick d2)))))"

text \<open>\<open>SELECT 1 FROM messages WHERE telegram_link = %s OR summary = %s LIMIT 1\<close>\<close>

definition message_exists ::
  "(nat \<Rightarrow> bool) \<Rightarrow> ustr \<Rightarrow> ustr \<Rightarrow> database \<Rightarrow> (failure + bool) \<times> database"
where
  "message_exists faults telegram_link summary d =
     (if faults (ops d) then (Inl StorageUnavailable, tick d)
      else (Inr (list_ex (\<lambda>m. m_telegram_link m = telegram_link \<or> m_summary m = summary)
                   (messages d)), tick d))"

text \<open>\<open>INSERT INTO messages (...) VALUES (...) RETURNING id\<close>, once committed.\<close>

definition insert_message :: "ustr option \<Rightarrow> ustr \<Rightarrow> ustr \<Rightarrow> ustr \<Rightarrow> database \<Rightarrow> database" where
  "insert_message source_url telegram_link summary category d =
     d\<lparr>messages := messages d @
          [\<lparr>msg_id = next_id d, m_source_url = source_url, m_telegram_link = telegram_link,
            m_summary = summary, m_category = category\<rparr>],
       next_id := next_id d + 1\<rparr>"

definition save_message ::
  "(ustr \<Rightarrow> ustr) \<Rightarrow> (ustr \<Rightarrow> ustr) \<Rightarrow> (nat \<Rightarrow> bool) \<Rightarrow> ustr option \<Rightarrow> ustr \<Rightarrow> ustr \<Rightarrow> ustr \<Rightarrow>
   database \<Rightarrow> (failure + nat option) \<times> database"
where
  "save_message sql_lower lower faults source_url telegram_link summary category d =
     (case add_category sql_lower lower faults category d of
        (Inl e, d1) \<Rightarrow> (Inl e, d1)
      | (Inr _, d1) \<Rightarrow>
          (case message_exists faults telegram_link summary d1 of
             (Inl e, d2) \<Rightarrow> (Inl e, d2)
           | (Inr found, d2) \<Rightarrow>
               if found then (Inr None, d2)
               else if faults (ops d2) then (Inl StorageUnavailable, tick d2)
               else if faults (ops d2 + 1) then (Inl StorageUnavailable, tick (tick d2))
               else (Inr (Some (next_id d2)),
                     insert_message source_url telegram_link summary category (tick (tick d2)))))"

section \<open>classifier.py: the decision\<close>

text \<open>
  \<open>classify_message\<close>. The classification result is unpacked into two names, which
  raises on a value that is not a pair; the duplicate check returns a string on every
  path (lemma \<open>check_duplicate_category_Single\<close> below), so the last branch is never
  taken.
\<close>

definition classify_message ::
  "(ustr \<Rightarrow> ustr) \<Rightarrow> (ustr \<Rightarrow> pyfloat option) \<Rightarrow> (nat \<Rightarrow> outcome) \<Rightarrow> (nat \<Rightarrow> bool) \<Rightarrow> ustr \<Rightarrow>
   database \<Rightarrow> gateway \<Rightarrow> (failure + ustr \<times> pyfloat) \<times> database \<times> gateway"
where
  "classify_message lower to_float api faults text d g =
     (case get_existing_categories faults d of
        (Inl e, d1) \<Rightarrow> (Inl e, d1, g)
      | (Inr existing_categories, d1) \<Rightarrow>
          (let category_match = simple_category_match lower text existing_categories in
           if truthy category_match then (Inr (the category_match, Finite 1), d1, g)
           else
             (case classify_with_claude to_float api text existing_categories g of
                (Single _, g1) \<Rightarrow> (Inl TypeError, d1, g1)
              | (Pair category confidence, g1) \<Rightarrow>
                  if lower category \<notin> set (map lower existing_categories) then
                    (case check_duplicate_category lower api category existing_categories g1 of
                       (Single category', g2) \<Rightarrow> (Inr (category', confidence), d1, g2)
                     | (Pair _ _, g2) \<Rightarrow> (Inl TypeError, d1, g2))
                  else (Inr (category, confidence), d1, g1))))"

section \<open>summarizer.py\<close>

text \<open>\<open>re.sub(r'\s+', ' ', s)\<close>: every maximal run of whitespace becomes one space.\<close>

function collapse_ws :: "ustr \<Rightarrow> ustr" where
  "collapse_ws [] = []"
| "collapse_ws (c # cs) =
     (if isspace c then 32 # collapse_ws (dropWhile isspace cs) else c # collapse_ws cs)"
  by pat_completeness auto
termination
  by (relation "measure length") (auto simp: le_imp_less_Suc length_dropWhile_le)

text \<open>
  \<open>re.sub(r'^(Forwarded from|...).*?\n', '', s, flags=re.MULTILINE)\<close>: a match starts
  at the start of a line, needs one of the three markers there and runs to the line's
  newline, which it includes. So every line that starts with a marker and is followed by
  a newline is deleted; the last line has no newline after it and stays.
\<close>

definition forward_markers :: "ustr list" where
  "forward_markers =
     [asc ''Forwarded from'',
      [1055, 1077, 1088, 1077, 1089, 1083, 1072, 1085, 1086, 32, 1086, 1090],
      [1055, 1077, 1088, 1077, 1089, 1099, 1083, 1082, 1072, 32, 1086, 1090]]"

fun drop_forward_lines :: "ustr list \<Rightarrow> ustr list" where
  "drop_forward_lines [] = []"
| "drop_forward_lines [l] = [l]"
| "drop_forward_lines (l # ls) =
     (if list_ex (startswith l) forward_markers then drop_forward_lines ls
      else l # drop_forward_lines ls)"

fun join_lines :: "ustr list \<Rightarrow> ustr" where
  "join_lines [] = []"
| "join_lines [l] = l"
| "join_lines (l # ls) = l @ 10 # join_lines ls"

text \<open>
  \<open>re.sub('[c]{n,}', r, s)\<close>: every maximal run of the character \<open>c\<close> of length at
  least \<open>n\<close> becomes \<open>r\<close>; shorter runs stay.
\<close>

function squeeze :: "nat \<Rightarrow> nat \<Rightarrow> ustr \<Rightarrow> ustr \<Rightarrow> ustr" where
  "squeeze c n r [] = []"
| "squeeze c n r (x # xs) =
     (if x = c then
        (if n \<le> length (takeWhile (\<lambda>y. y = c) (x # xs))
         then r @ squeeze c n r (dropWhile (\<lambda>y. y = c) xs)
         else takeWhile (\<lambda>y. y = c) (x # xs) @ squeeze c n r (dropWhile (\<lambda>y. y = c) xs))
      else x # squeeze c n r xs)"
  by pat_completeness auto
termination
  by (relation "measure (\<lambda>(c, n, r, s). length s)") (auto simp: le_imp_less_Suc length_dropWhile_le)

definition clean_text :: "ustr \<Rightarrow> ustr" where
  "clean_text text =
     (let t1 = collapse_ws (strip text);
          t2 = join_lines (drop_forward_lines (split_on 10 t1));
          t3 = squeeze 46 3 (asc ''...'') t2;
          t4 = squeeze 33 2 (asc ''!'') t3
      in squeeze 63 2 (asc ''?'') t4)"

definition summary_prefixes :: "ustr list" where
  "summary_prefixes =
     [[1056, 1077, 1079, 1102, 1084, 1077, 58],
      [1050, 1088, 1072, 1090, 1082, 1086, 1077, 32, 1088, 1077, 1079, 1102, 1084, 1077, 58],
      [1054, 1089, 1085, 1086, 1074, 1085, 1072, 1103, 32, 1080, 1076, 1077, 1103, 58],
      [1057, 1091, 1090, 1100, 58],
      [1042, 32, 1082, 1088, 1072, 1090, 1094, 1077, 58],
      [1042, 1082, 1088, 1072, 1090, 1094, 1077, 58]]"

text \<open>The loop of \<open>_clean_summary\<close> over the prefixes, left at the first that matches.\<close>

fun strip_prefix :: "ustr list \<Rightarrow> ustr \<Rightarrow> ustr" where
  "strip_prefix [] summary = summary"
| "strip_prefix (prefix # prefixes) summary =
     (if startswith summary prefix then strip (drop (length prefix) summary)
      else strip_prefix prefixes summary)"

definition clean_summary :: "ustr \<Rightarrow> ustr" where
  "clean_summary summary =
     (let s = strip_prefix summary_prefixes summary in
      if startswith s (asc ''\"'') \<and> endswith s (asc ''\"'') then strip (butlast (tl s)) else s)"

text \<open>\<open>s[:n]\<close> for an \<open>int\<close> bound: a negative bound counts from the end.\<close>

definition slice_to :: "ustr \<Rightarrow> int \<Rightarrow> ustr" where
  "slice_to s n = (if 0 \<le> n then take (nat n) s else take (nat (int (length s) + n)) s)"

text \<open>\<open>s.rfind(c)\<close>: the last index of \<open>c\<close>, or \<open>-1\<close>.\<close>

definition rfind :: "ustr \<Rightarrow> nat \<Rightarrow> int" where
  "rfind s c =
     (if c \<in> set s then int (length s) - 1 - int (length (takeWhile (\<lambda>y. y \<noteq> c) (rev s)))
      else - 1)"

text \<open>\<open>s.rsplit(' ', 1)[0]\<close>: what precedes the last space, or all of \<open>s\<close>.\<close>

definition rsplit_head :: "ustr \<Rightarrow> ustr" where
  "rsplit_head s = (if 32 \<in> set s then take (nat (rfind s 32)) s else s)"

definition fallback_summary :: "ustr \<Rightarrow> int \<Rightarrow> ustr" where
  "fallback_summary text max_length =
     (if int (length text) \<le> max_length then text
      else
        (let truncated = slice_to text max_length;
             last_sentence = rfind truncated 46
         in if last_sentence > max_length div 2 then slice_to truncated (last_sentence + 1)
            else
              (let last_space = rfind truncated 32
               in if last_space > max_length div 2
                  then slice_to truncated last_space @ asc ''...''
                  else truncated @ asc ''...'')))"

text \<open>
  The loop of the summarizer's own \<open>_call_claude_with_retry\<close>, as \<open>retry_loop\<close> above.
\<close>

fun summarizer_retry_loop ::
  "(nat \<Rightarrow> outcome) \<Rightarrow> int \<Rightarrow> nat \<Rightarrow> nat list \<Rightarrow> gateway \<Rightarrow> ustr option \<times> gateway"
where
  "summarizer_retry_loop api max_length max_retries [] g = (None, g)"
| "summarizer_retry_loop api max_length max_retries (attempt # rest) g =
     (case api (calls g) of
        Reply response_text \<Rightarrow>
          (let summary = clean_summary (strip response_text) in
           if int (length summary) > max_length
           then (Some (rsplit_head (slice_to summary max_length) @ asc ''...''), request g)
           else (Some summary, request g))
      | RateLimitError \<Rightarrow>
          summarizer_retry_loop api max_length max_retries rest
            (sleep (2 ^ attempt + 1) (request g))
      | APIError \<Rightarrow>
          (if attempt < max_retries - 1
           then summarizer_retry_loop api max_length max_retries rest
                  (sleep (2 ^ attempt) (request g))
           else (None, request g))
      | OtherError \<Rightarrow>
          (if attempt < max_retries - 1
           then summarizer_retry_loop api max_length max_retries rest
                  (sleep (2 ^ attempt) (request g))
           else (None, request g)))"

definition summarizer_call_claude_with_retry ::
  "(nat \<Rightarrow> outcome) \<Rightarrow> int \<Rightarrow> ustr \<Rightarrow> nat \<Rightarrow> gateway \<Rightarrow> ustr \<times> gateway"
where
  "summarizer_call_claude_with_retry api max_length original_text max_retries g =
     (case summarizer_retry_loop api max_length max_retries [0..<max_retries] g of
        (Some summary, g') \<Rightarrow> (summary, g')
      | (None, g') \<Rightarrow> (fallback_summary original_text max_length, g'))"

definition summarize_text :: "(nat \<Rightarrow> outcome) \<Rightarrow> ustr \<Rightarrow> int \<Rightarrow> gateway \<Rightarrow> ustr \<times> gateway" where
  "summarize_text api text max_length g =
     (if text = [] \<or> length (strip text) < 50 then (strip text, g)
      else summarizer_call_claude_with_retry api max_length (clean_text text) 3 g)"

section \<open>Properties of the store\<close>

lemma tick_simps:
  "categories (tick d) = categories d" "messages (tick d) = messages d"
  "next_id (tick d) = next_id d" "ops (tick d) = ops d + 1"
  by (simp_all add: tick_def)

lemma matches_existing_iff:
  "matches_existing lower cl xs \<longleftrightarrow> (\<exists>x\<in>set xs. lower x = cl)"
  by (induction xs) auto

text \<open>
  What \<open>add_category\<close> can do to the store: it never touches the messages, and it either
  leaves the categories alone or appends the new name, the latter only when it returns
  \<open>True\<close> and no stored name equals the new one under either lowercasing.
\<close>

lemma add_category_cases:
  assumes "add_category sql_lower lower faults c d = (r, d')"
  shows "messages d' = messages d \<and> next_id d' = next_id d \<and>
         (categories d' = categories d \<and> r \<noteq> Inr True \<or>
          r = Inr True \<and> categories d' = categories d @ [c] \<and>
          (\<forall>n\<in>set (categories d). sql_lower n \<noteq> sql_lower c \<and> lower n \<noteq> lower c))"
  using assms
  by (auto simp: add_category_def category_exists_def get_existing_categories_def
        insert_category_def tick_simps matches_existing_iff list_ex_iff
      split: if_splits)

lemma message_exists_cases:
  assumes "message_exists faults telegram_link summary d = (r, d')"
  shows "d' = tick d \<and>
         (r = Inl StorageUnavailable \<and> faults (ops d) \<or>
          \<not> faults (ops d) \<and>
          r = Inr (\<exists>m\<in>set (messages d). m_telegram_link m = telegram_link \<or> m_summary m = summary))"
  using assms by (auto simp: message_exists_def list_ex_iff split: if_splits)

lemma add_category_failure:
  assumes "add_category sql_lower lower faults c d = (Inl e, d')"
  shows "e = StorageUnavailable"
  using assms
  by (auto simp: add_category_def category_exists_def get_existing_categories_def
      split: if_splits)

lemma add_category_no_faults:
  assumes "\<forall>k. \<not> faults k"
  shows "\<exists>b d'. add_category sql_lower lower faults c d = (Inr b, d')"
  using assms
  by (auto simp: add_category_def category_exists_def get_existing_categories_def
      split: if_splits)







lemmas db_defs = save_message_def add_category_def category_exists_def
  get_existing_categories_def message_exists_def insert_message_def insert_category_def tick_def

section \<open>Message deduplication\<close>

text \<open>
  C3. When the store already holds a record whose link equals the link of the call, or
  whose summary equals the summary of the call (the links may differ), \<open>save_message\<close>
  inserts no message row. Its result is \<open>None\<close> (no identifier), a value of the
  successful side and so distinct from every failure; the only other result possible is
  the failure of a statement, and with no failing statement the result is \<open>None\<close>.
  The witness runs two calls with the same summary and different links.
\<close>

theorem save_message_duplicate:
  assumes "m \<in> set (messages d)"
      and "m_telegram_link m = telegram_link \<or> m_summary m = summary"
  shows "messages (snd (save_message sql_lower lower faults source_url telegram_link summary category d))
           = messages d \<and>
         (fst (save_message sql_lower lower faults source_url telegram_link summary category d) = Inr None \<or>
          fst (save_message sql_lower lower faults source_url telegram_link summary category d)
            = Inl StorageUnavailable) \<and>
         ((\<forall>k. \<not> faults k) \<longrightarrow>
          fst (save_message sql_lower lower faults source_url telegram_link summary category d) = Inr None)"
proof -
  obtain r1 d1 where a: "add_category sql_lower lower faults category d = (r1, d1)"
    by (cases "add_category sql_lower lower faults category d")
  from add_category_cases [OF a] have m1: "messages d1 = messages d" by simp
  obtain r2 d2 where e: "message_exists faults telegram_link summary d1 = (r2, d2)"
    by (cases "message_exists faults telegram_link summary d1")
  from message_exists_cases [OF e] assms m1
  have d2: "d2 = tick d1"
    and r2: "r2 = Inl StorageUnavailable \<and> faults (ops d1) \<or> \<not> faults (ops d1) \<and> r2 = Inr True"
    by auto
  show ?thesis
  proof (cases r1)
    case (Inl e1)
    with a add_category_failure [of sql_lower lower faults category d e1 d1]
      add_category_no_faults [of faults sql_lower lower category d] m1
    show ?thesis by (auto simp: save_message_def)
  next
    case (Inr b)
    with a e d2 r2 m1 show ?thesis
      by (auto simp: save_message_def tick_simps)
  qed
qed

theorem save_message_duplicate_witness:
  "save_message simple_lower simple_lower (\<lambda>k. False) None (asc ''t.me/c/1/7'') (asc ''Rates rise'')
      (asc ''news'') \<lparr>categories = [], messages = [], next_id = 1, ops = 0\<rparr>
     = (Inr (Some 1),
        \<lparr>categories = [asc ''news''],
         messages = [\<lparr>msg_id = 1, m_source_url = None, m_telegram_link = asc ''t.me/c/1/7'',
                      m_summary = asc ''Rates rise'', m_category = asc ''news''\<rparr>],
         next_id = 2, ops = 7\<rparr>) \<and>
   fst (save_message simple_lower simple_lower (\<lambda>k. False) None (asc ''t.me/c/1/8'') (asc ''Rates rise'')
      (asc ''finance'')
      \<lparr>categories = [asc ''news''],
       messages = [\<lparr>msg_id = 1, m_source_url = None, m_telegram_link = asc ''t.me/c/1/7'',
                    m_summary = asc ''Rates rise'', m_category = asc ''news''\<rparr>],
       next_id = 2, ops = 7\<rparr>) = Inr None \<and>
   messages (snd (save_message simple_lower simple_lower (\<lambda>k. False) None (asc ''t.me/c/1/8'')
      (asc ''Rates rise'') (asc ''finance'')
      \<lparr>categories = [asc ''news''],
       messages = [\<lparr>msg_id = 1, m_source_url = None, m_telegram_link = asc ''t.me/c/1/7'',
                    m_summary = asc ''Rates rise'', m_category = asc ''news''\<rparr>],
       next_id = 2, ops = 7\<rparr>))
     = [\<lparr>msg_id = 1, m_source_url = None, m_telegram_link = asc ''t.me/c/1/7'',
         m_summary = asc ''Rates rise'', m_category = asc ''news''\<rparr>]"
  using save_message_duplicate
    [of "\<lparr>msg_id = 1, m_source_url = None, m_telegram_link = asc ''t.me/c/1/7'',
          m_summary = asc ''Rates rise'', m_category = asc ''news''\<rparr>"
        "\<lparr>categories = [asc ''news''],
          messages = [\<lparr>msg_id = 1, m_source_url = None, m_telegram_link = asc ''t.me/c/1/7'',
                    m_summary = asc ''Rates rise'', m_category = asc ''news''\<rparr>],
          next_id = 2, ops = 7\<rparr>"
        "asc ''t.me/c/1/8''" "asc ''Rates rise''" simple_lower simple_lower "\<lambda>k. False" None
        "asc ''finance''"]
  by (simp add: db_defs simple_lower_def lower_char_def)

section \<open>Idempotent category insertion\<close>



section \<open>What a failed recording leaves behind\<close>

text \<open>
  C9 as stated does not hold: \<open>save_message\<close> commits the category before it looks at
  the messages. On an empty store, with the fifth statement (the duplicate query)
  failing, the call fails and the store has gained the category \<open>news\<close>.
\<close>

theorem save_message_failure_counterexample:
  "fst (save_message simple_lower simple_lower (\<lambda>k. k = 4) None (asc ''t.me/c/1/7'') (asc ''Rates rise'')
      (asc ''news'') \<lparr>categories = [], messages = [], next_id = 1, ops = 0\<rparr>) = Inl StorageUnavailable \<and>
   categories (snd (save_message simple_lower simple_lower (\<lambda>k. k = 4) None (asc ''t.me/c/1/7'')
      (asc ''Rates rise'') (asc ''news'') \<lparr>categories = [], messages = [], next_id = 1, ops = 0\<rparr>))
     = [asc ''news''] \<and>
   categories (snd (save_message simple_lower simple_lower (\<lambda>k. k = 4) None (asc ''t.me/c/1/7'')
      (asc ''Rates rise'') (asc ''news'') \<lparr>categories = [], messages = [], next_id = 1, ops = 0\<rparr>))
     \<noteq> categories \<lparr>categories = [], messages = [], next_id = 1, ops = 0\<rparr>"
  by (simp add: db_defs simple_lower_def lower_char_def)

text \<open>
  C9, amended. When \<open>save_message\<close> fails, no message row has been committed: the
  messages are those of before the call. The categories are those of before the call,
  or those with the category of the call appended.
\<close>

theorem save_message_failure_state:
  assumes "save_message sql_lower lower faults source_url telegram_link summary category d = (Inl e, d')"
  shows "messages d' = messages d \<and>
         (categories d' = categories d \<or> categories d' = categories d @ [category])"
proof -
  obtain r1 d1 where a: "add_category sql_lower lower faults category d = (r1, d1)"
    by (cases "add_category sql_lower lower faults category d")
  from add_category_cases [OF a]
  have m1: "messages d1 = messages d"
    and c1: "categories d1 = categories d \<or> categories d1 = categories d @ [category]"
    by auto
  from assms a have "messages d' = messages d1 \<and> categories d' = categories d1"
    by (auto simp: save_message_def message_exists_def tick_simps split: sum.splits if_splits)
  with m1 c1 show ?thesis by auto
qed

theorem save_message_failure_state_witness:
  "save_message simple_lower simple_lower (\<lambda>k. k = 5) (Some (asc ''https://example.com''))
      (asc ''t.me/c/1/9'') (asc ''Chip news'') (asc ''tech'')
      \<lparr>categories = [asc ''news''], messages = [], next_id = 1, ops = 0\<rparr>
     = (Inl StorageUnavailable,
        \<lparr>categories = [asc ''news'', asc ''tech''], messages = [], next_id = 1, ops = 6\<rparr>) \<and>
   messages \<lparr>categories = [asc ''news'', asc ''tech''], messages = [], next_id = 1, ops = 6\<rparr>
     = messages \<lparr>categories = [asc ''news''], messages = [], next_id = 1, ops = 0\<rparr> \<and>
   categories \<lparr>categories = [asc ''news'', asc ''tech''], messages = [], next_id = 1, ops = 6\<rparr>
     = categories \<lparr>categories = [asc ''news''], messages = [], next_id = 1, ops = 0\<rparr> @ [asc ''tech'']"
  using save_message_failure_state
    [of simple_lower simple_lower "\<lambda>k. k = 5" "Some (asc ''https://example.com'')"
        "asc ''t.me/c/1/9''" "asc ''Chip news''" "asc ''tech''"
        "\<lparr>categories = [asc ''news''], messages = [], next_id = 1, ops = 0\<rparr>"
        StorageUnavailable
        "\<lparr>categories = [asc ''news'', asc ''tech''], messages = [], next_id = 1, ops = 6\<rparr>"]
  by (simp add: db_defs simple_lower_def lower_char_def)

section \<open>Short texts are not summarized\<close>

text \<open>
  C10. For every input text whose stripped form is shorter than 50 characters (the empty
  one included), \<open>summarize_text\<close> returns the stripped text itself, whatever
  \<open>max_length\<close> is, and the gateway is left as it was: no request is made and no sleep
  is taken.
\<close>

theorem summarize_text_short:
  assumes "length (strip text) < 50"
  shows "summarize_text api text max_length g = (strip text, g)"
  using assms by (simp add: summarize_text_def)

theorem summarize_text_short_witness:
  "length (strip (asc '' Short text '')) < 50 \<and>
   summarize_text (\<lambda>k. Reply (asc ''never read'')) (asc '' Short text '') 200
       \<lparr>calls = 0, sleeps = []\<rparr>
     = (asc ''Short text'', \<lparr>calls = 0, sleeps = []\<rparr>)"
  using summarize_text_short
          [of "asc '' Short text ''" "\<lambda>k. Reply (asc ''never read'')" 200
              "\<lparr>calls = 0, sleeps = []\<rparr>"]
  by (simp add: strip_def isspace_def)

section \<open>Properties of the retry loops\<close>

lemmas gw_defs = request_def sleep_def
lemmas str_defs = strip_def isspace_def startswith_def split_once_def simple_lower_def lower_char_def
  label_category_def label_confidence_def decimal_float_def is_digit_def
lemmas cls_defs = classify_message_def classify_with_claude_def check_duplicate_category_def
  call_claude_with_retry_def parse_claude_response_def parse_duplicate_response_def
  get_existing_categories_def tick_def

lemma gateway_simps:
  "calls (request g) = calls g + 1" "sleeps (request g) = sleeps g"
  "calls (sleep n g) = calls g" "sleeps (sleep n g) = sleeps g @ [n]"
  by (simp_all add: request_def sleep_def)

lemma retry_loop_all_fail:
  assumes "\<forall>k<length atts. \<not> is_reply (api (calls g + k))"
  shows "fst (retry_loop api parser_func operation_name max_retries atts g) = None"
  using assms
proof (induction atts arbitrary: g)
  case Nil
  then show ?case by simp
next
  case (Cons attempt rest)
  from Cons.prems have here: "\<not> is_reply (api (calls g))" by force
  have later: "\<forall>k<length rest. \<not> is_reply (api (calls (sleep n (request g)) + k))" for n
    using Cons.prems by (auto simp: gateway_simps)
  show ?case
  proof (cases "api (calls g)")
    case (Reply t)
    with here show ?thesis by simp
  next
    case RateLimitError
    then show ?thesis using Cons.IH [OF later] by simp
  next
    case APIError
    then show ?thesis using Cons.IH [OF later] by simp
  next
    case OtherError
    then show ?thesis using Cons.IH [OF later] by simp
  qed
qed

text \<open>
  A call whose attempts all fail makes exactly \<open>max_retries\<close> requests. It sleeps
  \<open>max_retries - 1\<close> times when the last failure is not a rate limit, and \<open>max_retries\<close>
  times when it is: the rate-limit branch sleeps after the last attempt too.
\<close>

lemma retry_loop_exhausted:
  assumes "\<forall>k<n. \<not> is_reply (api (calls g + k))"
  shows "calls (snd (retry_loop api parser_func operation_name (a + n) [a..<a + n] g)) = calls g + n \<and>
         length (sleeps (snd (retry_loop api parser_func operation_name (a + n) [a..<a + n] g)))
           + (if 0 < n \<and> api (calls g + (n - 1)) \<noteq> RateLimitError then 1 else 0)
         = length (sleeps g) + n"
  using assms
proof (induction n arbitrary: a g)
  case 0
  then show ?case by simp
next
  case (Suc n)
  have split: "[a..<a + Suc n] = a # [Suc a..<Suc a + n]"
    by (simp add: upt_conv_Cons)
  from Suc.prems have here: "\<not> is_reply (api (calls g))" by force
  have later: "\<forall>k<n. \<not> is_reply (api (calls (sleep w (request g)) + k))" for w
  proof (intro allI impI)
    fix k assume "k < n"
    then have "Suc k < Suc n" by simp
    with Suc.prems have "\<not> is_reply (api (calls g + Suc k))" by blast
    then show "\<not> is_reply (api (calls (sleep w (request g)) + k))"
      by (simp add: gateway_simps)
  qed
  have ih: "calls (snd (retry_loop api parser_func operation_name (a + Suc n) [Suc a..<Suc a + n]
                         (sleep w (request g)))) = calls g + Suc n \<and>
            length (sleeps (snd (retry_loop api parser_func operation_name (a + Suc n)
                         [Suc a..<Suc a + n] (sleep w (request g)))))
              + (if 0 < n \<and> api (calls g + n) \<noteq> RateLimitError then 1 else 0)
            = length (sleeps g) + Suc n" for w
  proof (cases "0 < n")
    case True
    then have "calls g + 1 + (n - 1) = calls g + n" by simp
    with Suc.IH [where a = "Suc a" and g = "sleep w (request g)"] later [of w] True show ?thesis
      by (simp add: gateway_simps del: upt_Suc)
  next
    case False
    with Suc.IH [where a = "Suc a" and g = "sleep w (request g)"] later [of w] show ?thesis
      by (simp add: gateway_simps del: upt_Suc)
  qed
  show ?case
  proof (cases "api (calls g)")
    case (Reply t)
    with here show ?thesis by simp
  next
    case RateLimitError
    show ?thesis
    proof (cases "0 < n")
      case True
      with RateLimitError ih [of "2 ^ a + 1"] show ?thesis
        unfolding split by (simp del: upt_Suc)
    next
      case False
      with RateLimitError show ?thesis unfolding split by (simp add: gateway_simps del: upt_Suc)
    qed
  next
    case APIError
    show ?thesis
    proof (cases "0 < n")
      case True
      with APIError ih [of "2 ^ a"] show ?thesis
        unfolding split by (simp del: upt_Suc)
    next
      case False
      with APIError show ?thesis unfolding split by (simp add: gateway_simps del: upt_Suc)
    qed
  next
    case OtherError
    show ?thesis
    proof (cases "0 < n")
      case True
      with OtherError ih [of "2 ^ a"] show ?thesis
        unfolding split by (simp del: upt_Suc)
    next
      case False
      with OtherError show ?thesis unfolding split by (simp add: gateway_simps del: upt_Suc)
    qed
  qed
qed

lemma call_claude_with_retry_exhausted:
  assumes "\<forall>k<max_retries. \<not> is_reply (api (calls g + k))"
  shows "calls (snd (call_claude_with_retry api parser_func operation_name max_retries g))
           = calls g + max_retries \<and>
         length (sleeps (snd (call_claude_with_retry api parser_func operation_name max_retries g)))
           + (if 0 < max_retries \<and> api (calls g + (max_retries - 1)) \<noteq> RateLimitError then 1 else 0)
         = length (sleeps g) + max_retries"
proof -
  obtain v g' where r: "retry_loop api parser_func operation_name max_retries [0..<max_retries] g = (v, g')"
    by (cases "retry_loop api parser_func operation_name max_retries [0..<max_retries] g")
  from retry_loop_all_fail [of "[0..<max_retries]" api g parser_func operation_name max_retries] assms r
  have "v = None" by simp
  with r have "snd (call_claude_with_retry api parser_func operation_name max_retries g) = g'"
    by (simp add: call_claude_with_retry_def)
  with retry_loop_exhausted [OF assms, of parser_func operation_name 0] r show ?thesis by simp
qed

lemma summarizer_retry_loop_all_fail:
  assumes "\<forall>k<length atts. \<not> is_reply (api (calls g + k))"
  shows "fst (summarizer_retry_loop api max_length max_retries atts g) = None"
  using assms
proof (induction atts arbitrary: g)
  case Nil
  then show ?case by simp
next
  case (Cons attempt rest)
  from Cons.prems have here: "\<not> is_reply (api (calls g))" by force
  have later: "\<forall>k<length rest. \<not> is_reply (api (calls (sleep n (request g)) + k))" for n
    using Cons.prems by (auto simp: gateway_simps)
  show ?case
  proof (cases "api (calls g)")
    case (Reply t)
    with here show ?thesis by simp
  next
    case RateLimitError
    then show ?thesis using Cons.IH [OF later] by simp
  next
    case APIError
    then show ?thesis using Cons.IH [OF later] by simp
  next
    case OtherError
    then show ?thesis using Cons.IH [OF later] by simp
  qed
qed

lemma summarizer_retry_loop_exhausted:
  assumes "\<forall>k<n. \<not> is_reply (api (calls g + k))"
  shows "calls (snd (summarizer_retry_loop api max_length (a + n) [a..<a + n] g)) = calls g + n \<and>
         length (sleeps (snd (summarizer_retry_loop api max_length (a + n) [a..<a + n] g)))
           + (if 0 < n \<and> api (calls g + (n - 1)) \<noteq> RateLimitError then 1 else 0)
         = length (sleeps g) + n"
  using assms
proof (induction n arbitrary: a g)
  case 0
  then show ?case by simp
next
  case (Suc n)
  have split: "[a..<a + Suc n] = a # [Suc a..<Suc a + n]"
    by (simp add: upt_conv_Cons)
  from Suc.prems have here: "\<not> is_reply (api (calls g))" by force
  have later: "\<forall>k<n. \<not> is_reply (api (calls (sleep w (request g)) + k))" for w
  proof (intro allI impI)
    fix k assume "k < n"
    then have "Suc k < Suc n" by simp
    with Suc.prems have "\<not> is_reply (api (calls g + Suc k))" by blast
    then show "\<not> is_reply (api (calls (sleep w (request g)) + k))"
      by (simp add: gateway_simps)
  qed
  have ih: "calls (snd (summarizer_retry_loop api max_length (a + Suc n) [Suc a..<Suc a + n]
                         (sleep w (request g)))) = calls g + Suc n \<and>
            length (sleeps (snd (summarizer_retry_loop api max_length (a + Suc n)
                         [Suc a..<Suc a + n] (sleep w (request g)))))
              + (if 0 < n \<and> api (calls g + n) \<noteq> RateLimitError then 1 else 0)
            = length (sleeps g) + Suc n" for w
  proof (cases "0 < n")
    case True
    then have "calls g + 1 + (n - 1) = calls g + n" by simp
    with Suc.IH [where a = "Suc a" and g = "sleep w (request g)"] later [of w] True show ?thesis
      by (simp add: gateway_simps del: upt_Suc)
  next
    case False
    with Suc.IH [where a = "Suc a" and g = "sleep w (request g)"] later [of w] show ?thesis
      by (simp add: gateway_simps del: upt_Suc)
  qed
  show ?case
  proof (cases "api (calls g)")
    case (Reply t)
    with here show ?thesis by simp
  next
    case RateLimitError
    show ?thesis
    proof (cases "0 < n")
      case True
      with RateLimitError ih [of "2 ^ a + 1"] show ?thesis
        unfolding split by (simp del: upt_Suc)
    next
      case False
      with RateLimitError show ?thesis unfolding split by (simp add: gateway_simps del: upt_Suc)
    qed
  next
    case APIError
    show ?thesis
    proof (cases "0 < n")
      case True
      with APIError ih [of "2 ^ a"] show ?thesis
        unfolding split by (simp del: upt_Suc)
    next
      case False
      with APIError show ?thesis unfolding split by (simp add: gateway_simps del: upt_Suc)
    qed
  next
    case OtherError
    show ?thesis
    proof (cases "0 < n")
      case True
      with OtherError ih [of "2 ^ a"] show ?thesis
        unfolding split by (simp del: upt_Suc)
    next
      case False
      with OtherError show ?thesis unfolding split by (simp add: gateway_simps del: upt_Suc)
    qed
  qed
qed

lemma summarizer_call_claude_with_retry_exhausted:
  assumes "\<forall>k<max_retries. \<not> is_reply (api (calls g + k))"
  shows "fst (summarizer_call_claude_with_retry api max_length original_text max_retries g)
           = fallback_summary original_text max_length \<and>
         calls (snd (summarizer_call_claude_with_retry api max_length original_text max_retries g))
           = calls g + max_retries \<and>
         length (sleeps (snd (summarizer_call_claude_with_retry api max_length original_text max_retries g)))
           + (if 0 < max_retries \<and> api (calls g + (max_retries - 1)) \<noteq> RateLimitError then 1 else 0)
         = length (sleeps g) + max_retries"
proof -
  obtain v g' where r: "summarizer_retry_loop api max_length max_retries [0..<max_retries] g = (v, g')"
    by (cases "summarizer_retry_loop api max_length max_retries [0..<max_retries] g")
  from summarizer_retry_loop_all_fail [of "[0..<max_retries]" api g max_length max_retries] assms r
  have "v = None" by simp
  with r have "summarizer_call_claude_with_retry api max_length original_text max_retries g
                 = (fallback_summary original_text max_length, g')"
    by (simp add: summarizer_call_claude_with_retry_def)
  with summarizer_retry_loop_exhausted [OF assms, of max_length 0] r show ?thesis by simp
qed

section \<open>The retry ceiling\<close>

text \<open>
  C6. A call that is rate limited on each of its three attempts makes three requests and
  sleeps three times, for 2, 3 and 5 seconds, before the fallback is returned: one sleep
  more than \<open>max_retries - 1\<close>. The same holds in the classifier and in the summarizer.
  The branches for the other failures do not sleep after the last attempt (lemmas
  \<open>call_claude_with_retry_exhausted\<close> and \<open>summarizer_call_claude_with_retry_exhausted\<close>).
\<close>

theorem rate_limit_sleeps:
  "call_claude_with_retry (\<lambda>k. RateLimitError) (parse_claude_response decimal_float)
       (asc ''classification'') 3 \<lparr>calls = 0, sleeps = []\<rparr>
     = (Pair (asc ''general'') (Finite (1 / 2)), \<lparr>calls = 3, sleeps = [2, 3, 5]\<rparr>) \<and>
   summarizer_call_claude_with_retry (\<lambda>k. RateLimitError) 200 (asc ''Short enough.'') 3
       \<lparr>calls = 0, sleeps = []\<rparr>
     = (asc ''Short enough.'', \<lparr>calls = 3, sleeps = [2, 3, 5]\<rparr>) \<and>
   length [2, 3, 5 :: nat] \<noteq> 3 - 1"
  by (simp add: call_claude_with_retry_def summarizer_call_claude_with_retry_def
        fallback_summary_def gw_defs upt_rec)

section \<open>Properties of the classifier\<close>

lemma retry_loop_Single:
  assumes "operation_name \<noteq> asc ''classification''"
      and "\<forall>t. \<exists>s. parser_func t = Single s"
  shows "fst (retry_loop api parser_func operation_name max_retries atts g) = None \<or>
         (\<exists>s. fst (retry_loop api parser_func operation_name max_retries atts g) = Some (Single s))"
  using assms
proof (induction atts arbitrary: g)
  case Nil
  then show ?case by simp
next
  case (Cons attempt rest)
  show ?case
  proof (cases "api (calls g)")
    case (Reply t)
    with Cons.prems show ?thesis by simp
  next
    case RateLimitError
    then show ?thesis using Cons.IH [OF Cons.prems] by simp
  next
    case APIError
    then show ?thesis using Cons.IH [OF Cons.prems] by simp
  next
    case OtherError
    then show ?thesis using Cons.IH [OF Cons.prems] by simp
  qed
qed

lemma retry_loop_Pair:
  assumes "\<forall>t. \<exists>c f. parser_func t = Pair c f"
  shows "fst (retry_loop api parser_func (asc ''classification'') max_retries atts g) = None \<or>
         (\<exists>c f. fst (retry_loop api parser_func (asc ''classification'') max_retries atts g)
                   = Some (Pair c f))"
  using assms
proof (induction atts arbitrary: g)
  case Nil
  then show ?case by simp
next
  case (Cons attempt rest)
  show ?case
  proof (cases "api (calls g)")
    case (Reply t)
    from Cons.prems obtain c f where "parser_func t = Pair c f" by blast
    with Reply show ?thesis by simp
  next
    case RateLimitError
    then show ?thesis using Cons.IH [OF Cons.prems] by simp
  next
    case APIError
    then show ?thesis using Cons.IH [OF Cons.prems] by simp
  next
    case OtherError
    then show ?thesis using Cons.IH [OF Cons.prems] by simp
  qed
qed

lemma parse_claude_response_Pair: "\<exists>c f. parse_claude_response to_float t = Pair c f"
  by (auto simp: parse_claude_response_def split: option.splits prod.splits)

lemma parse_duplicate_response_Single:
  "\<exists>s. parse_duplicate_response lower new_category existing_categories t = Single s"
  by (simp add: parse_duplicate_response_def Let_def)

lemma duplicate_check_not_classification: "asc ''duplicate_check'' \<noteq> asc ''classification''"
  by simp

lemma classify_with_claude_Pair:
  "\<exists>c f g'. classify_with_claude to_float api text existing_categories g = (Pair c f, g')"
proof -
  let ?r = "retry_loop api (parse_claude_response to_float) (asc ''classification'') 3 [0..<3] g"
  have "fst ?r = None \<or> (\<exists>c f. fst ?r = Some (Pair c f))"
    by (rule retry_loop_Pair) (simp add: parse_claude_response_Pair)
  then show ?thesis
    by (cases ?r) (auto simp: classify_with_claude_def call_claude_with_retry_def)
qed

lemma check_duplicate_category_Single:
  "\<exists>s g'. check_duplicate_category lower api new_category existing_categories g = (Single s, g')"
proof (cases "existing_categories = []")
  case True
  then show ?thesis by (simp add: check_duplicate_category_def)
next
  case False
  let ?r = "retry_loop api (parse_duplicate_response lower new_category existing_categories)
              (asc ''duplicate_check'') 3 [0..<3] g"
  have "fst ?r = None \<or> (\<exists>s. fst ?r = Some (Single s))"
    by (rule retry_loop_Single [OF duplicate_check_not_classification])
       (simp add: parse_duplicate_response_Single)
  with False show ?thesis
    by (cases ?r) (auto simp: check_duplicate_category_def call_claude_with_retry_def)
qed

lemma check_duplicate_category_exhausted:
  assumes "existing_categories \<noteq> []"
      and "\<forall>k<3. \<not> is_reply (api (calls g + k))"
  shows "fst (check_duplicate_category lower api new_category existing_categories g)
           = Single (asc ''general'')"
proof -
  let ?r = "retry_loop api (parse_duplicate_response lower new_category existing_categories)
              (asc ''duplicate_check'') 3 [0..<3] g"
  have "fst ?r = None"
    by (rule retry_loop_all_fail) (use assms(2) in simp)
  with assms(1) show ?thesis
    by (cases ?r) (simp add: check_duplicate_category_def call_claude_with_retry_def)
qed

lemma retry_loop_first_reply:
  assumes "a + j < m"
      and "\<forall>i<j. \<not> is_reply (api (calls g + i))"
      and "api (calls g + j) = Reply t"
      and "parser_func t = Pair c f"
  shows "fst (retry_loop api parser_func (asc ''classification'') m [a..<m] g)
           = Some (if lt_half f then Pair (asc ''review'') f else Pair c f)"
  using assms
proof (induction j arbitrary: a g)
  case 0
  then have "[a..<m] = a # [Suc a..<m]" by (simp add: upt_conv_Cons)
  with 0 show ?case by simp
next
  case (Suc j)
  then have split: "[a..<m] = a # [Suc a..<m]" and more: "a < m - 1"
    by (simp_all add: upt_conv_Cons)
  from Suc.prems have here: "\<not> is_reply (api (calls g))" by force
  have step: "fst (retry_loop api parser_func (asc ''classification'') m [Suc a..<m]
                    (sleep n (request g)))
                = Some (if lt_half f then Pair (asc ''review'') f else Pair c f)" for n
  proof (rule Suc.IH)
    show "Suc a + j < m" using Suc.prems(1) by simp
    show "\<forall>i<j. \<not> is_reply (api (calls (sleep n (request g)) + i))"
      using Suc.prems(2) by (auto simp: gateway_simps)
    show "api (calls (sleep n (request g)) + j) = Reply t"
      using Suc.prems(3) by (simp add: gateway_simps)
    show "parser_func t = Pair c f" by fact
  qed
  show ?case
  proof (cases "api (calls g)")
    case (Reply t')
    with here show ?thesis by simp
  next
    case RateLimitError
    with split step show ?thesis by simp
  next
    case APIError
    with split more step show ?thesis by simp
  next
    case OtherError
    with split more step show ?thesis by simp
  qed
qed

text \<open>The two unpacking failures of \<open>classify_message\<close> never happen.\<close>

lemma classify_message_no_TypeError:
  "fst (classify_message lower to_float api faults text d g) \<noteq> Inl TypeError"
proof -
  obtain r d1 where rd: "get_existing_categories faults d = (r, d1)"
    by (cases "get_existing_categories faults d")
  show ?thesis
  proof (cases r)
    case (Inl e)
    with rd have "e = StorageUnavailable"
      by (auto simp: get_existing_categories_def split: if_splits)
    with rd Inl show ?thesis by (simp add: classify_message_def)
  next
    case (Inr existing)
    obtain c f g1 where cw: "classify_with_claude to_float api text existing g = (Pair c f, g1)"
      using classify_with_claude_Pair by blast
    obtain s g2 where dup: "check_duplicate_category lower api c existing g1 = (Single s, g2)"
      using check_duplicate_category_Single by blast
    from rd Inr cw dup show ?thesis
      by (simp add: classify_message_def Let_def)
  qed
qed

text \<open>\<open>contains\<close> is the substring test, and the simple match is the first hit in list order.\<close>

lemma startswith_iff: "startswith s p \<longleftrightarrow> (\<exists>q. s = p @ q)"
  unfolding startswith_def
  by (metis append_eq_conv_conj append_take_drop_id)

lemma contains_iff: "contains s sub \<longleftrightarrow> (\<exists>p q. s = p @ sub @ q)"
proof (induction s)
  case Nil
  then show ?case by simp
next
  case (Cons c cs)
  have "(\<exists>p q. c # cs = p @ sub @ q) \<longleftrightarrow> (\<exists>q. c # cs = sub @ q) \<or> (\<exists>p q. cs = p @ sub @ q)"
  proof
    assume "\<exists>p q. c # cs = p @ sub @ q"
    then obtain p q where pq: "c # cs = p @ sub @ q" by blast
    show "(\<exists>q. c # cs = sub @ q) \<or> (\<exists>p q. cs = p @ sub @ q)"
    proof (cases p)
      case Nil
      with pq show ?thesis by auto
    next
      case (Cons x p')
      with pq have "cs = p' @ sub @ q" by simp
      then show ?thesis by blast
    qed
  next
    assume "(\<exists>q. c # cs = sub @ q) \<or> (\<exists>p q. cs = p @ sub @ q)"
    then show "\<exists>p q. c # cs = p @ sub @ q"
    proof
      assume "\<exists>q. c # cs = sub @ q"
      then obtain q where "c # cs = [] @ sub @ q" by auto
      then show ?thesis by blast
    next
      assume "\<exists>p q. cs = p @ sub @ q"
      then obtain p q where "c # cs = (c # p) @ sub @ q" by auto
      then show ?thesis by blast
    qed
  qed
  with Cons show ?case by (simp add: startswith_iff)
qed

lemma simple_category_match_find:
  "simple_category_match lower text cs
     = find (\<lambda>category. contains (lower text) (lower category)) cs"
  by (induction cs) simp_all

section \<open>Simple match precedence\<close>

text \<open>
  C2 as stated does not hold when the first stored name that matches is the empty
  string: \<open>_simple_category_match\<close> returns it, \<open>classify_message\<close> tests the returned
  value for truth, and the empty string is false. With the names \<open>""\<close> and \<open>"tech"\<close>
  stored and the text \<open>"tech news"\<close>, the first match is \<open>""\<close>; the gateway is called
  and the result is the model's \<open>("tech", 0.9)\<close>.
\<close>

theorem classify_simple_match_counterexample:
  "find (\<lambda>category. contains (simple_lower (asc ''tech news'')) (simple_lower category))
       (sort [asc ''tech'', []]) = Some [] \<and>
   classify_message simple_lower decimal_float
       (\<lambda>k. Reply (label_category @ asc '' tech'' @ [10] @ label_confidence @ asc '' 0.9''))
       (\<lambda>k. False) (asc ''tech news'')
       \<lparr>categories = [asc ''tech'', []], messages = [], next_id = 1, ops = 0\<rparr>
       \<lparr>calls = 0, sleeps = []\<rparr>
     = (Inr (asc ''tech'', Finite (9 / 10)),
        \<lparr>categories = [asc ''tech'', []], messages = [], next_id = 1, ops = 1\<rparr>,
        \<lparr>calls = 1, sleeps = []\<rparr>)"
  by (simp add: cls_defs str_defs gw_defs upt_rec)

text \<open>
  C2, amended. When the first stored name, in the order the store lists them, whose
  lowercase form occurs in the lowercased text is not the empty string,
  \<open>classify_message\<close> returns that name with confidence 1.0 and leaves the gateway as it
  was: no request, no sleep.
\<close>

theorem classify_simple_match:
  assumes "get_existing_categories faults d = (Inr existing, d1)"
      and "find (\<lambda>category. contains (lower text) (lower category)) existing = Some c"
      and "c \<noteq> []"
  shows "classify_message lower to_float api faults text d g = (Inr (c, Finite 1), d1, g)"
  using assms by (simp add: classify_message_def simple_category_match_find)

theorem classify_simple_match_witness:
  "get_existing_categories (\<lambda>k. False)
       \<lparr>categories = [asc ''technology'', asc ''news''], messages = [], next_id = 1, ops = 0\<rparr>
     = (Inr [asc ''news'', asc ''technology''],
        \<lparr>categories = [asc ''technology'', asc ''news''], messages = [], next_id = 1, ops = 1\<rparr>) \<and>
   find (\<lambda>category. contains (simple_lower (asc ''New iPhone technology breakthrough''))
                        (simple_lower category))
       [asc ''news'', asc ''technology''] = Some (asc ''technology'') \<and>
   classify_message simple_lower decimal_float (\<lambda>k. OtherError) (\<lambda>k. False)
       (asc ''New iPhone technology breakthrough'')
       \<lparr>categories = [asc ''technology'', asc ''news''], messages = [], next_id = 1, ops = 0\<rparr>
       \<lparr>calls = 0, sleeps = []\<rparr>
     = (Inr (asc ''technology'', Finite 1),
        \<lparr>categories = [asc ''technology'', asc ''news''], messages = [], next_id = 1, ops = 1\<rparr>,
        \<lparr>calls = 0, sleeps = []\<rparr>)"
  using classify_simple_match
    [of "\<lambda>k. False"
        "\<lparr>categories = [asc ''technology'', asc ''news''], messages = [], next_id = 1, ops = 0\<rparr>"
        "[asc ''news'', asc ''technology'']"
        "\<lparr>categories = [asc ''technology'', asc ''news''], messages = [], next_id = 1, ops = 1\<rparr>"
        simple_lower "asc ''New iPhone technology breakthrough''" "asc ''technology''"
        decimal_float "\<lambda>k. OtherError" "\<lparr>calls = 0, sleeps = []\<rparr>"]
  by (simp add: get_existing_categories_def tick_def str_defs)

section \<open>Exhausted duplicate check\<close>

text \<open>
  C1 as stated does not hold: when the duplicate check fails on all its attempts,
  \<open>_call_claude_with_retry\<close> returns its own fallback \<open>"general"\<close>, not the candidate.
  Here the classification answers \<open>tech\<close> with 0.9 and every later request fails.
\<close>

theorem duplicate_check_exhausted_counterexample:
  "fst (classify_with_claude decimal_float
       (\<lambda>k. if k = 0 then Reply (label_category @ asc '' tech'' @ [10] @ label_confidence @ asc '' 0.9'')
            else APIError)
       (asc ''hello'') [asc ''news''] \<lparr>calls = 0, sleeps = []\<rparr>)
     = Pair (asc ''tech'') (Finite (9 / 10)) \<and>
   classify_message simple_lower decimal_float
       (\<lambda>k. if k = 0 then Reply (label_category @ asc '' tech'' @ [10] @ label_confidence @ asc '' 0.9'')
            else APIError)
       (\<lambda>k. False) (asc ''hello'')
       \<lparr>categories = [asc ''news''], messages = [], next_id = 1, ops = 0\<rparr> \<lparr>calls = 0, sleeps = []\<rparr>
     = (Inr (asc ''general'', Finite (9 / 10)),
        \<lparr>categories = [asc ''news''], messages = [], next_id = 1, ops = 1\<rparr>,
        \<lparr>calls = 4, sleeps = [1, 2]\<rparr>) \<and>
   asc ''general'' \<noteq> asc ''tech''"
  by (simp add: cls_defs str_defs gw_defs upt_rec)

text \<open>
  C1, amended. For every candidate that is not (case-insensitively) in a non-empty list
  of stored names, when the three attempts of the duplicate check all fail,
  \<open>classify_message\<close> falls back to the sentinel \<open>"general"\<close>: the final category is
  \<open>"general"\<close>, whatever the candidate is, with the confidence of the classification.
\<close>

theorem duplicate_check_exhausted_general:
  assumes "get_existing_categories faults d = (Inr existing, d1)"
      and "existing \<noteq> []"
      and "\<not> truthy (simple_category_match lower text existing)"
      and "classify_with_claude to_float api text existing g = (Pair candidate confidence, g1)"
      and "lower candidate \<notin> set (map lower existing)"
      and "\<forall>k<3. \<not> is_reply (api (calls g1 + k))"
  shows "fst (classify_message lower to_float api faults text d g) = Inr (asc ''general'', confidence)"
proof -
  obtain v g2 where c: "check_duplicate_category lower api candidate existing g1 = (v, g2)"
    by (cases "check_duplicate_category lower api candidate existing g1")
  with check_duplicate_category_exhausted [OF assms(2) assms(6), of lower candidate]
  have "v = Single (asc ''general'')" by simp
  with assms c show ?thesis
    by (simp add: classify_message_def)
qed

theorem duplicate_check_exhausted_general_witness:
  "get_existing_categories (\<lambda>k. False)
       \<lparr>categories = [asc ''news''], messages = [], next_id = 1, ops = 0\<rparr>
     = (Inr [asc ''news''], \<lparr>categories = [asc ''news''], messages = [], next_id = 1, ops = 1\<rparr>) \<and>
   classify_with_claude decimal_float
       (\<lambda>k. if k = 0 then Reply (label_category @ asc '' sports'' @ [10] @ label_confidence @ asc '' 0.7'')
            else RateLimitError)
       (asc ''The cup final'') [asc ''news''] \<lparr>calls = 0, sleeps = []\<rparr>
     = (Pair (asc ''sports'') (Finite (7 / 10)), \<lparr>calls = 1, sleeps = []\<rparr>) \<and>
   fst (classify_message simple_lower decimal_float
       (\<lambda>k. if k = 0 then Reply (label_category @ asc '' sports'' @ [10] @ label_confidence @ asc '' 0.7'')
            else RateLimitError)
       (\<lambda>k. False) (asc ''The cup final'')
       \<lparr>categories = [asc ''news''], messages = [], next_id = 1, ops = 0\<rparr> \<lparr>calls = 0, sleeps = []\<rparr>)
     = Inr (asc ''general'', Finite (7 / 10))"
  using duplicate_check_exhausted_general
    [of "\<lambda>k. False" "\<lparr>categories = [asc ''news''], messages = [], next_id = 1, ops = 0\<rparr>"
        "[asc ''news'']" "\<lparr>categories = [asc ''news''], messages = [], next_id = 1, ops = 1\<rparr>"
        simple_lower "asc ''The cup final''" decimal_float
        "\<lambda>k. if k = 0 then Reply (label_category @ asc '' sports'' @ [10] @ label_confidence @ asc '' 0.7'')
            else RateLimitError"
        "\<lparr>calls = 0, sleeps = []\<rparr>" "asc ''sports''" "Finite (7 / 10)" "\<lparr>calls = 1, sleeps = []\<rparr>"]
  by (simp add: cls_defs str_defs gw_defs upt_rec)

section \<open>Low confidence\<close>

text \<open>
  C5 as stated does not hold for the final result: the duplicate check runs on
  \<open>"review"\<close> as on any other candidate. With only \<open>news\<close> stored, a classification of
  confidence 0.3 and a duplicate check that answers \<open>news\<close>, the final category is
  \<open>news\<close>.
\<close>

theorem low_confidence_review_counterexample:
  "parse_claude_response decimal_float
       (label_category @ asc '' sports'' @ [10] @ label_confidence @ asc '' 0.3'')
     = Pair (asc ''sports'') (Finite (3 / 10)) \<and>
   lt_half (Finite (3 / 10)) \<and>
   classify_message simple_lower decimal_float
       (\<lambda>k. if k = 0 then Reply (label_category @ asc '' sports'' @ [10] @ label_confidence @ asc '' 0.3'')
            else Reply (asc ''news''))
       (\<lambda>k. False) (asc ''The cup final'')
       \<lparr>categories = [asc ''news''], messages = [], next_id = 1, ops = 0\<rparr>
       \<lparr>calls = 0, sleeps = []\<rparr>
     = (Inr (asc ''news'', Finite (3 / 10)),
        \<lparr>categories = [asc ''news''], messages = [], next_id = 1, ops = 1\<rparr>,
        \<lparr>calls = 2, sleeps = []\<rparr>) \<and>
   asc ''news'' \<noteq> asc ''review''"
  by (simp add: cls_defs str_defs gw_defs upt_rec)

text \<open>
  C5, amended. When the response that the classification call returns from (the first
  response within its three attempts) parses to a confidence below 0.5, the call returns
  \<open>"review"\<close> with that confidence, and the final result of \<open>classify_message\<close> carries
  that confidence unchanged. The final category is \<open>"review"\<close> when no name is stored or
  \<open>"review"\<close> is stored (case-insensitively); otherwise it is the category that
  \<open>_check_duplicate_category\<close> returns for the candidate \<open>"review"\<close>, called after the
  classification.
\<close>

theorem low_confidence_review:
  assumes "get_existing_categories faults d = (Inr existing, d1)"
      and "\<not> truthy (simple_category_match lower text existing)"
      and "j < 3"
      and "\<forall>i<j. \<not> is_reply (api (calls g + i))"
      and "api (calls g + j) = Reply t"
      and "parse_claude_response to_float t = Pair c confidence"
      and "lt_half confidence"
  shows "fst (classify_with_claude to_float api text existing g) = Pair (asc ''review'') confidence \<and>
         (\<exists>category. fst (classify_message lower to_float api faults text d g)
                        = Inr (category, confidence) \<and>
            (existing = [] \<or> lower (asc ''review'') \<in> set (map lower existing)
               \<longrightarrow> category = asc ''review'') \<and>
            (lower (asc ''review'') \<notin> set (map lower existing)
               \<longrightarrow> fst (check_duplicate_category lower api (asc ''review'') existing
                          (snd (classify_with_claude to_float api text existing g)))
                     = Single category))"
proof -
  obtain v g1 where r: "retry_loop api (parse_claude_response to_float) (asc ''classification'') 3
                          [0..<3] g = (v, g1)"
    by (cases "retry_loop api (parse_claude_response to_float) (asc ''classification'') 3 [0..<3] g")
  from retry_loop_first_reply [of 0 j 3 api g t "parse_claude_response to_float" c confidence]
    assms r
  have v: "v = Some (Pair (asc ''review'') confidence)" by simp
  with r have cw: "classify_with_claude to_float api text existing g
                     = (Pair (asc ''review'') confidence, g1)"
    by (simp add: classify_with_claude_def call_claude_with_retry_def)
  obtain s g2 where dup: "check_duplicate_category lower api (asc ''review'') existing g1 = (Single s, g2)"
    using check_duplicate_category_Single by blast
  have skip: "s = asc ''review''" if "existing = []"
    using dup that by (simp add: check_duplicate_category_def)
  show ?thesis
  proof (cases "lower (asc ''review'') \<in> set (map lower existing)")
    case True
    with assms(1,2) cw show ?thesis
      by (simp add: classify_message_def)
  next
    case False
    with assms(1,2) cw dup
    have "fst (classify_message lower to_float api faults text d g) = Inr (s, confidence)"
      by (simp add: classify_message_def)
    with False cw dup skip show ?thesis by simp
  qed
qed

theorem low_confidence_review_witness:
  "get_existing_categories (\<lambda>k. False)
       \<lparr>categories = [asc ''news''], messages = [], next_id = 1, ops = 0\<rparr>
     = (Inr [asc ''news''], \<lparr>categories = [asc ''news''], messages = [], next_id = 1, ops = 1\<rparr>) \<and>
   parse_claude_response decimal_float
       (label_category @ asc '' sports'' @ [10] @ label_confidence @ asc '' 0.3'')
     = Pair (asc ''sports'') (Finite (3 / 10)) \<and>
   lt_half (Finite (3 / 10)) \<and>
   classify_with_claude decimal_float
       (\<lambda>k. if k = 0 then RateLimitError
            else if k = 1
            then Reply (label_category @ asc '' sports'' @ [10] @ label_confidence @ asc '' 0.3'')
            else Reply (asc ''sports''))
       (asc ''The cup final'') [asc ''news''] \<lparr>calls = 0, sleeps = []\<rparr>
     = (Pair (asc ''review'') (Finite (3 / 10)), \<lparr>calls = 2, sleeps = [2]\<rparr>) \<and>
   fst (check_duplicate_category simple_lower
       (\<lambda>k. if k = 0 then RateLimitError
            else if k = 1
            then Reply (label_category @ asc '' sports'' @ [10] @ label_confidence @ asc '' 0.3'')
            else Reply (asc ''sports''))
       (asc ''review'') [asc ''news''] \<lparr>calls = 2, sleeps = [2]\<rparr>)
     = Single (asc ''review'') \<and>
   fst (classify_message simple_lower decimal_float
       (\<lambda>k. if k = 0 then RateLimitError
            else if k = 1
            then Reply (label_category @ asc '' sports'' @ [10] @ label_confidence @ asc '' 0.3'')
            else Reply (asc ''sports''))
       (\<lambda>k. False) (asc ''The cup final'')
       \<lparr>categories = [asc ''news''], messages = [], next_id = 1, ops = 0\<rparr>
       \<lparr>calls = 0, sleeps = []\<rparr>)
     = Inr (asc ''review'', Finite (3 / 10))"
  using low_confidence_review
    [of "\<lambda>k. False"
        "\<lparr>categories = [asc ''news''], messages = [], next_id = 1, ops = 0\<rparr>"
        "[asc ''news'']"
        "\<lparr>categories = [asc ''news''], messages = [], next_id = 1, ops = 1\<rparr>"
        simple_lower "asc ''The cup final''" 1
        "\<lambda>k. if k = 0 then RateLimitError
            else if k = 1
            then Reply (label_category @ asc '' sports'' @ [10] @ label_confidence @ asc '' 0.3'')
            else Reply (asc ''sports'')"
        "\<lparr>calls = 0, sleeps = []\<rparr>"
        "label_category @ asc '' sports'' @ [10] @ label_confidence @ asc '' 0.3''"
        decimal_float "asc ''sports''" "Finite (3 / 10)"]
  by (simp add: cls_defs str_defs gw_defs upt_rec)

section \<open>Casing of a duplicate\<close>

text \<open>
  C7. With \<open>Technology\<close> stored, the candidate \<open>tech\<close> and the answer \<open>technology\<close>,
  the answer matches the stored name case-insensitively and \<open>_check_duplicate_category\<close>
  returns the answer as the model wrote it, \<open>technology\<close>, not the stored
  \<open>Technology\<close>; \<open>classify_message\<close> returns it as the final category.
\<close>

theorem duplicate_answer_casing:
  "check_duplicate_category simple_lower (\<lambda>k. Reply (asc ''technology'')) (asc ''tech'')
       [asc ''Technology''] \<lparr>calls = 0, sleeps = []\<rparr>
     = (Single (asc ''technology''), \<lparr>calls = 1, sleeps = []\<rparr>) \<and>
   classify_message simple_lower decimal_float
       (\<lambda>k. if k = 0 then Reply (label_category @ asc '' tech'' @ [10] @ label_confidence @ asc '' 0.8'')
            else Reply (asc ''technology''))
       (\<lambda>k. False) (asc ''A new chip'')
       \<lparr>categories = [asc ''Technology''], messages = [], next_id = 1, ops = 0\<rparr>
       \<lparr>calls = 0, sleeps = []\<rparr>
     = (Inr (asc ''technology'', Finite (8 / 10)),
        \<lparr>categories = [asc ''Technology''], messages = [], next_id = 1, ops = 1\<rparr>,
        \<lparr>calls = 2, sleeps = []\<rparr>) \<and>
   asc ''technology'' \<noteq> asc ''Technology''"
  by (simp add: cls_defs str_defs gw_defs upt_rec)

section \<open>The worked scenario\<close>

text \<open>
  C8 as stated does not hold: the parser reads the labels of the prompt, which are
  Russian. A response with the labels \<open>Category:\<close> and \<open>Confidence:\<close> has no recognised
  line and parses to \<open>("general", 0.5)\<close>, which is also the final result.
\<close>

theorem english_labels_counterexample:
  "parse_claude_response decimal_float (asc ''Category: ai_research'' @ [10] @ asc ''Confidence: 0.85'')
     = Pair (asc ''general'') (Finite (1 / 2)) \<and>
   classify_message simple_lower decimal_float
       (\<lambda>k. if k = 0 then Reply (asc ''Category: ai_research'' @ [10] @ asc ''Confidence: 0.85'')
            else Reply (asc ''ai_research''))
       (\<lambda>k. False) (asc ''Article about artificial intelligence research'')
       \<lparr>categories = [asc ''technology'', asc ''news''], messages = [], next_id = 1, ops = 0\<rparr>
       \<lparr>calls = 0, sleeps = []\<rparr>
     = (Inr (asc ''general'', Finite (1 / 2)),
        \<lparr>categories = [asc ''technology'', asc ''news''], messages = [], next_id = 1, ops = 1\<rparr>,
        \<lparr>calls = 2, sleeps = []\<rparr>) \<and>
   (asc ''general'', Finite (1 / 2)) \<noteq> (asc ''ai_research'', Finite (85 / 100))"
  by (simp add: cls_defs str_defs gw_defs upt_rec)

text \<open>
  C8, amended. With the stored names \<open>technology\<close> and \<open>news\<close>, a text with no simple
  match, and the response of the scenario written with the labels the parser reads
  (code points of the two Cyrillic labels, then \<open>ai_research\<close> and \<open>0.85\<close>): the
  response parses to \<open>("ai_research", 0.85)\<close>, the duplicate check is made (a second
  request), and when it answers \<open>ai_research\<close> the final result is
  \<open>("ai_research", 0.85)\<close>.
\<close>

theorem labelled_response_scenario:
  assumes "simple_category_match simple_lower text [asc ''news'', asc ''technology''] = None"
      and "api 0 = Reply (label_category @ asc '' ai_research'' @ [10] @ label_confidence @ asc '' 0.85'')"
      and "api 1 = Reply (asc ''ai_research'')"
  shows "parse_claude_response decimal_float
             (label_category @ asc '' ai_research'' @ [10] @ label_confidence @ asc '' 0.85'')
           = Pair (asc ''ai_research'') (Finite (85 / 100)) \<and>
         classify_message simple_lower decimal_float api (\<lambda>k. False) text
             \<lparr>categories = [asc ''technology'', asc ''news''], messages = [], next_id = 1, ops = 0\<rparr>
             \<lparr>calls = 0, sleeps = []\<rparr>
           = (Inr (asc ''ai_research'', Finite (85 / 100)),
              \<lparr>categories = [asc ''technology'', asc ''news''], messages = [], next_id = 1, ops = 1\<rparr>,
              \<lparr>calls = 2, sleeps = []\<rparr>)"
  using assms by (simp add: cls_defs str_defs gw_defs upt_rec)

theorem labelled_response_scenario_witness:
  "simple_category_match simple_lower (asc ''Article about artificial intelligence research'')
       [asc ''news'', asc ''technology''] = None \<and>
   classify_message simple_lower decimal_float
       (\<lambda>k. if k = 0 then Reply (label_category @ asc '' ai_research'' @ [10] @ label_confidence @ asc '' 0.85'')
            else Reply (asc ''ai_research''))
       (\<lambda>k. False) (asc ''Article about artificial intelligence research'')
       \<lparr>categories = [asc ''technology'', asc ''news''], messages = [], next_id = 1, ops = 0\<rparr>
       \<lparr>calls = 0, sleeps = []\<rparr>
     = (Inr (asc ''ai_research'', Finite (85 / 100)),
        \<lparr>categories = [asc ''technology'', asc ''news''], messages = [], next_id = 1, ops = 1\<rparr>,
        \<lparr>calls = 2, sleeps = []\<rparr>)"
  using labelled_response_scenario
    [of "asc ''Article about artificial intelligence research''"
        "\<lambda>k. if k = 0 then Reply (label_category @ asc '' ai_research'' @ [10] @ label_confidence @ asc '' 0.85'')
            else Reply (asc ''ai_research'')"]
  by (simp add: str_defs)


end
